theory Spec2Isabelle
  imports Complex_Main "HOL-Library.Word"
begin

unbundle bit_operations_syntax

section \<open>JavaScript values and strings\<close>

text \<open>
  The values of JavaScript, by type; objects, symbols and functions are known by
  their identity only. A JavaScript string is a sequence of UTF-16 code units; \<open>s.length\<close> counts code
  units. Node's \<open>Buffer.from(s)\<close> and \<open>Buffer.byteLength(s)\<close> work on the UTF-8
  encoding of the string, in which a surrogate pair becomes four bytes and a lone
  surrogate becomes the replacement character U+FFFD (\<open>EF BF BD\<close>).
\<close>

type_synonym byte = "8 word"
type_synonym jsstring = "16 word list"

definition ascii :: "string \<Rightarrow> jsstring" where
  "ascii s = map of_char s"

datatype jsval =
    JUndefined
  | JNull
  | JBoolean bool
  | JNumber real
  | JNaN
  | JBigInt int
  | JString jsstring
  | JSymbol nat
  | JObject nat
  | JFunction nat

fun typeof :: "jsval \<Rightarrow> string" where
  "typeof JUndefined = ''undefined''"
| "typeof JNull = ''object''"
| "typeof (JBoolean _) = ''boolean''"
| "typeof (JNumber _) = ''number''"
| "typeof JNaN = ''number''"
| "typeof (JBigInt _) = ''bigint''"
| "typeof (JString _) = ''string''"
| "typeof (JSymbol _) = ''symbol''"
| "typeof (JObject _) = ''object''"
| "typeof (JFunction _) = ''function''"

fun truthy :: "jsval \<Rightarrow> bool" where
  "truthy JUndefined = False"
| "truthy JNull = False"
| "truthy (JBoolean b) = b"
| "truthy (JNumber x) = (x \<noteq> 0)"
| "truthy JNaN = False"
| "truthy (JBigInt i) = (i \<noteq> 0)"
| "truthy (JString s) = (s \<noteq> [])"
| "truthy (JSymbol _) = True"
| "truthy (JObject _) = True"
| "truthy (JFunction _) = True"

datatype js_error = TypeError | RangeError

definition is_high_surrogate :: "16 word \<Rightarrow> bool" where
  "is_high_surrogate c = (0xD800 \<le> c \<and> c \<le> 0xDBFF)"

definition is_low_surrogate :: "16 word \<Rightarrow> bool" where
  "is_low_surrogate c = (0xDC00 \<le> c \<and> c \<le> 0xDFFF)"

text \<open>The low six bits of a code point, shifted down by \<open>n\<close>, as a continuation byte.\<close>

definition cont_byte :: "nat \<Rightarrow> 32 word \<Rightarrow> byte" where
  "cont_byte n cp = 0x80 OR ucast (drop_bit n cp AND 0x3F)"

definition utf8_1 :: "32 word \<Rightarrow> byte list" where
  "utf8_1 cp = [ucast cp]"

definition utf8_2 :: "32 word \<Rightarrow> byte list" where
  "utf8_2 cp = [0xC0 OR ucast (drop_bit 6 cp), cont_byte 0 cp]"

definition utf8_3 :: "32 word \<Rightarrow> byte list" where
  "utf8_3 cp = [0xE0 OR ucast (drop_bit 12 cp), cont_byte 6 cp, cont_byte 0 cp]"

definition utf8_4 :: "32 word \<Rightarrow> byte list" where
  "utf8_4 cp = [0xF0 OR ucast (drop_bit 18 cp), cont_byte 12 cp, cont_byte 6 cp, cont_byte 0 cp]"

definition surrogate_pair :: "16 word \<Rightarrow> 16 word \<Rightarrow> 32 word" where
  "surrogate_pair hi lo = 0x10000 + push_bit 10 (ucast (hi - 0xD800)) + ucast (lo - 0xDC00)"

definition replacement_char :: "byte list" where
  "replacement_char = [0xEF, 0xBF, 0xBD]"

fun utf8_encode :: "jsstring \<Rightarrow> byte list" where
  "utf8_encode [] = []"
| "utf8_encode (c # cs) =
     (if c < 0x80 then utf8_1 (ucast c) @ utf8_encode cs
      else if c < 0x800 then utf8_2 (ucast c) @ utf8_encode cs
      else if is_high_surrogate c then
        (case cs of
           [] \<Rightarrow> replacement_char
         | d # ds \<Rightarrow>
             if is_low_surrogate d
             then utf8_4 (surrogate_pair c d) @ utf8_encode ds
             else replacement_char @ utf8_encode cs)
      else if is_low_surrogate c then replacement_char @ utf8_encode cs
      else utf8_3 (ucast c) @ utf8_encode cs)"

definition Buffer_from :: "jsstring \<Rightarrow> byte list" where
  "Buffer_from s = utf8_encode s"

definition byteLength :: "jsstring \<Rightarrow> nat" where
  "byteLength s = length (utf8_encode s)"

section \<open>security.js: constant-time comparison\<close>

text \<open>
  \<open>crypto.timingSafeEqual\<close> throws when the two buffers differ in length and otherwise
  compares them without an early exit: the differences of all byte pairs are
  accumulated with OR and the result is compared with zero once at the end.
\<close>

definition CRYPTO_memcmp :: "byte list \<Rightarrow> byte list \<Rightarrow> byte" where
  "CRYPTO_memcmp a b = fold (\<lambda>(x, y) acc. acc OR (x XOR y)) (zip a b) 0"

definition timingSafeEqual :: "byte list \<Rightarrow> byte list \<Rightarrow> js_error + bool" where
  "timingSafeEqual a b =
     (if length a \<noteq> length b then Inl RangeError else Inr (CRYPTO_memcmp a b = 0))"

definition constantTimeCompare :: "jsval \<Rightarrow> jsval \<Rightarrow> bool" where
  "constantTimeCompare a b =
     (if typeof a \<noteq> ''string'' \<or> typeof b \<noteq> ''string'' then False
      else case (a, b) of
        (JString s, JString t) \<Rightarrow>
          (let lengthA = byteLength s; lengthB = byteLength t in
           if lengthA \<noteq> lengthB then False
           else let bufferA = Buffer_from s; bufferB = Buffer_from t in
             (case timingSafeEqual bufferA bufferB of
                Inr r \<Rightarrow> r
              | Inl _ \<Rightarrow> False))
      | _ \<Rightarrow> False)"

section \<open>security.js: API key format guard\<close>

definition startsWith :: "jsstring \<Rightarrow> jsstring \<Rightarrow> bool" where
  "startsWith s p = (take (length p) s = p)"

definition substring_from :: "nat \<Rightarrow> jsstring \<Rightarrow> jsstring" where
  "substring_from n s = drop n s"

definition in_range :: "char \<Rightarrow> char \<Rightarrow> 16 word \<Rightarrow> bool" where
  "in_range lo hi c = (of_char lo \<le> c \<and> c \<le> of_char hi)"

text \<open>The character class \<open>[a-zA-Z0-9_]\<close> of the source's regular expression.\<close>

definition is_key_char :: "16 word \<Rightarrow> bool" where
  "is_key_char c =
     (in_range CHR ''a'' CHR ''z'' c \<or> in_range CHR ''A'' CHR ''Z'' c \<or>
      in_range CHR ''0'' CHR ''9'' c \<or> c = of_char CHR ''_'')"

text \<open>
  \<open>/^[a-zA-Z0-9_]+$/.test(s)\<close>: without the \<open>m\<close> flag the anchors match only at the
  two ends of the input, so the test holds when \<open>s\<close> is one or more class characters.
\<close>

definition test_key_chars :: "jsstring \<Rightarrow> bool" where
  "test_key_chars s = (s \<noteq> [] \<and> list_all is_key_char s)"

definition validPrefixes :: "jsstring list" where
  "validPrefixes = [ascii ''sk_'', ascii ''cr_'', ascii ''pk_'']"

definition isValidApiKeyFormat :: "jsval \<Rightarrow> bool" where
  "isValidApiKeyFormat apiKey =
     (if \<not> truthy apiKey \<or> typeof apiKey \<noteq> ''string'' then False
      else case apiKey of
        JString s \<Rightarrow>
          if length s < 20 \<or> length s > 256 then False
          else let hasValidPrefix = list_ex (\<lambda>prefix. startsWith s prefix) validPrefixes in
            if \<not> hasValidPrefix then False
            else let keyPart = substring_from 3 s in
              if \<not> test_key_chars keyPart then False
              else True
      | _ \<Rightarrow> False)"

section \<open>Regular expressions of the specification\<close>

text \<open>
  The specification states the format guard as a regular expression. Its meaning is
  given by a small backtracking matcher: \<open>run r s\<close> lists the remainders of \<open>s\<close> after
  every prefix of \<open>s\<close> that \<open>r\<close> matches, and an expression anchored at both ends
  matches \<open>s\<close> when the empty remainder is among them.
\<close>

datatype rx =
    Lit jsstring
  | Cls "(char \<times> char) list"
  | Alt rx rx
  | Seq rx rx
  | Rep nat nat rx

definition in_class :: "(char \<times> char) list \<Rightarrow> 16 word \<Rightarrow> bool" where
  "in_class rs c = list_ex (\<lambda>(lo, hi). in_range lo hi c) rs"

fun iter :: "(jsstring \<Rightarrow> jsstring list) \<Rightarrow> nat \<Rightarrow> nat \<Rightarrow> jsstring \<Rightarrow> jsstring list" where
  "iter f lo 0 s = (if lo = 0 then [s] else [])"
| "iter f lo (Suc hi) s =
     (if lo = 0 then [s] else []) @ concat (map (iter f (lo - 1) hi) (f s))"

fun run :: "rx \<Rightarrow> jsstring \<Rightarrow> jsstring list" where
  "run (Lit l) s = (if startsWith s l then [drop (length l) s] else [])"
| "run (Cls rs) s = (case s of [] \<Rightarrow> [] | c # cs \<Rightarrow> if in_class rs c then [cs] else [])"
| "run (Alt a b) s = run a s @ run b s"
| "run (Seq a b) s = concat (map (run b) (run a s))"
| "run (Rep lo hi r) s = iter (run r) lo hi s"

definition rx_match :: "rx \<Rightarrow> jsstring \<Rightarrow> bool" where
  "rx_match r s = ([] \<in> set (run r s))"

text \<open>\<open>^(sk_|cr_|pk_)[A-Za-z0-9_]{17,253}$\<close>\<close>

definition spec_key_regex :: rx where
  "spec_key_regex =
     Seq (Alt (Lit (ascii ''sk_'')) (Alt (Lit (ascii ''cr_'')) (Lit (ascii ''pk_''))))
         (Rep 17 253 (Cls [(CHR ''A'', CHR ''Z''), (CHR ''a'', CHR ''z''),
                           (CHR ''0'', CHR ''9''), (CHR ''_'', CHR ''_'')]))"

section \<open>Node's crypto primitives\<close>

text \<open>
  \<open>crypto.createHash('sha256')\<close> and \<open>crypto.pbkdf2Sync(\<dots>, 'sha512')\<close> are library
  functions; they are modelled by the algorithms they implement (SHA-256 and SHA-512
  of FIPS 180-4, HMAC of RFC 2104, PBKDF2 of RFC 8018), on byte lists. A string
  argument is hashed through its UTF-8 encoding, and \<open>'hex'\<close> output is the lower-case
  hexadecimal rendering of the digest bytes. Evaluated on the published test vectors
  (the digests of \<open>abc\<close>, for one), the definitions give the published values.
\<close>

type_synonym w32 = "32 word"
type_synonym w64 = "64 word"

text \<open>The \<open>n\<close> low bytes of a word, most significant first.\<close>

definition be_bytes :: "nat \<Rightarrow> 'a::len word \<Rightarrow> byte list" where
  "be_bytes n w = map (\<lambda>i. ucast (drop_bit (8 * (n - 1 - i)) w)) [0..<n]"

definition hex_digit :: "byte \<Rightarrow> 16 word" where
  "hex_digit d = of_char (''0123456789abcdef'' ! unat d)"

definition to_hex :: "byte list \<Rightarrow> jsstring" where
  "to_hex bs = concat (map (\<lambda>b. [hex_digit (drop_bit 4 b), hex_digit (b AND 0x0F)]) bs)"

fun chunks :: "nat \<Rightarrow> 'a list \<Rightarrow> 'a list list" where
  "chunks n xs = (if n = 0 \<or> xs = [] then [] else take n xs # chunks n (drop n xs))"

text \<open>
  The round constants of SHA-2 are the leading bits of the fractional parts of the cube
  roots of the first primes. \<open>iroot k n\<close> is the integer part of the \<open>k\<close>-th root
  of \<open>n\<close>, found bit by bit from the top; 72 bits are enough for the roots needed.
\<close>

definition is_prime :: "nat \<Rightarrow> bool" where
  "is_prime n = (1 < n \<and> list_all (\<lambda>d. n mod d \<noteq> 0) [2..<n])"

definition first_primes :: "nat \<Rightarrow> nat list" where
  "first_primes k = take k (filter is_prime [2..<410])"

definition iroot :: "nat \<Rightarrow> int \<Rightarrow> int" where
  "iroot k n = fold (\<lambda>b r. if (r + 2 ^ b) ^ k \<le> n then r + 2 ^ b else r) (rev [0..<72]) 0"

subsection \<open>SHA-256\<close>

definition rotr32 :: "nat \<Rightarrow> w32 \<Rightarrow> w32" where
  "rotr32 n x = drop_bit n x OR push_bit (32 - n) x"

definition ch32 :: "w32 \<Rightarrow> w32 \<Rightarrow> w32 \<Rightarrow> w32" where
  "ch32 x y z = (x AND y) XOR (NOT x AND z)"

definition maj32 :: "w32 \<Rightarrow> w32 \<Rightarrow> w32 \<Rightarrow> w32" where
  "maj32 x y z = (x AND y) XOR (x AND z) XOR (y AND z)"

definition bsig0_32 :: "w32 \<Rightarrow> w32" where
  "bsig0_32 x = rotr32 2 x XOR rotr32 13 x XOR rotr32 22 x"

definition bsig1_32 :: "w32 \<Rightarrow> w32" where
  "bsig1_32 x = rotr32 6 x XOR rotr32 11 x XOR rotr32 25 x"

definition ssig0_32 :: "w32 \<Rightarrow> w32" where
  "ssig0_32 x = rotr32 7 x XOR rotr32 18 x XOR drop_bit 3 x"

definition ssig1_32 :: "w32 \<Rightarrow> w32" where
  "ssig1_32 x = rotr32 17 x XOR rotr32 19 x XOR drop_bit 10 x"

definition K256 :: "w32 list" where
  "K256 = map (\<lambda>p. word_of_int (iroot 3 (int p * 2 ^ 96))) (first_primes 64)"

type_synonym hash256 = "w32 \<times> w32 \<times> w32 \<times> w32 \<times> w32 \<times> w32 \<times> w32 \<times> w32"

definition H256_init :: hash256 where
  "H256_init =
    (0x6a09e667, 0xbb67ae85, 0x3c6ef372, 0xa54ff53a,
     0x510e527f, 0x9b05688c, 0x1f83d9ab, 0x5be0cd19)"

definition be_word32 :: "byte list \<Rightarrow> w32" where
  "be_word32 bs = foldl (\<lambda>acc b. push_bit 8 acc OR ucast b) 0 bs"

definition sha256_pad :: "byte list \<Rightarrow> byte list" where
  "sha256_pad m =
     m @ [0x80] @ replicate ((119 - length m mod 64) mod 64) 0 @
     be_bytes 8 (of_nat (8 * length m) :: 64 word)"

definition sha256_schedule :: "byte list \<Rightarrow> w32 list" where
  "sha256_schedule block =
     fold (\<lambda>t w. w @ [ssig1_32 (w ! (t - 2)) + w ! (t - 7) + ssig0_32 (w ! (t - 15)) + w ! (t - 16)])
          [16..<64] (map be_word32 (chunks 4 block))"

fun sha256_round :: "hash256 \<Rightarrow> w32 \<times> w32 \<Rightarrow> hash256" where
  "sha256_round (a, b, c, d, e, f, g, h) (k, w) =
     (let T1 = h + bsig1_32 e + ch32 e f g + k + w;
          T2 = bsig0_32 a + maj32 a b c
      in (T1 + T2, a, b, c, d + T1, e, f, g))"

fun add256 :: "hash256 \<Rightarrow> hash256 \<Rightarrow> hash256" where
  "add256 (h0, h1, h2, h3, h4, h5, h6, h7) (a, b, c, d, e, f, g, h) =
     (h0 + a, h1 + b, h2 + c, h3 + d, h4 + e, h5 + f, h6 + g, h7 + h)"

definition sha256_compress :: "hash256 \<Rightarrow> byte list \<Rightarrow> hash256" where
  "sha256_compress H block = add256 H (foldl sha256_round H (zip K256 (sha256_schedule block)))"

fun digest256 :: "hash256 \<Rightarrow> byte list" where
  "digest256 (h0, h1, h2, h3, h4, h5, h6, h7) =
     concat (map (be_bytes 4) [h0, h1, h2, h3, h4, h5, h6, h7])"

definition sha256 :: "byte list \<Rightarrow> byte list" where
  "sha256 m = digest256 (foldl sha256_compress H256_init (chunks 64 (sha256_pad m)))"

subsection \<open>SHA-512, HMAC and PBKDF2\<close>

definition rotr64 :: "nat \<Rightarrow> w64 \<Rightarrow> w64" where
  "rotr64 n x = drop_bit n x OR push_bit (64 - n) x"

definition ch64 :: "w64 \<Rightarrow> w64 \<Rightarrow> w64 \<Rightarrow> w64" where
  "ch64 x y z = (x AND y) XOR (NOT x AND z)"

definition maj64 :: "w64 \<Rightarrow> w64 \<Rightarrow> w64 \<Rightarrow> w64" where
  "maj64 x y z = (x AND y) XOR (x AND z) XOR (y AND z)"

definition bsig0_64 :: "w64 \<Rightarrow> w64" where
  "bsig0_64 x = rotr64 28 x XOR rotr64 34 x XOR rotr64 39 x"

definition bsig1_64 :: "w64 \<Rightarrow> w64" where
  "bsig1_64 x = rotr64 14 x XOR rotr64 18 x XOR rotr64 41 x"

definition ssig0_64 :: "w64 \<Rightarrow> w64" where
  "ssig0_64 x = rotr64 1 x XOR rotr64 8 x XOR drop_bit 7 x"

definition ssig1_64 :: "w64 \<Rightarrow> w64" where
  "ssig1_64 x = rotr64 19 x XOR rotr64 61 x XOR drop_bit 6 x"

definition K512 :: "w64 list" where
  "K512 = map (\<lambda>p. word_of_int (iroot 3 (int p * 2 ^ 192))) (first_primes 80)"

type_synonym hash512 = "w64 \<times> w64 \<times> w64 \<times> w64 \<times> w64 \<times> w64 \<times> w64 \<times> w64"

definition H512_init :: hash512 where
  "H512_init =
    (0x6a09e667f3bcc908, 0xbb67ae8584caa73b, 0x3c6ef372fe94f82b, 0xa54ff53a5f1d36f1,
     0x510e527fade682d1, 0x9b05688c2b3e6c1f, 0x1f83d9abfb41bd6b, 0x5be0cd19137e2179)"

definition be_word64 :: "byte list \<Rightarrow> w64" where
  "be_word64 bs = foldl (\<lambda>acc b. push_bit 8 acc OR ucast b) 0 bs"

definition sha512_pad :: "byte list \<Rightarrow> byte list" where
  "sha512_pad m =
     m @ [0x80] @ replicate ((239 - length m mod 128) mod 128) 0 @
     be_bytes 16 (of_nat (8 * length m) :: 128 word)"

definition sha512_schedule :: "byte list \<Rightarrow> w64 list" where
  "sha512_schedule block =
     fold (\<lambda>t w. w @ [ssig1_64 (w ! (t - 2)) + w ! (t - 7) + ssig0_64 (w ! (t - 15)) + w ! (t - 16)])
          [16..<80] (map be_word64 (chunks 8 block))"

fun sha512_round :: "hash512 \<Rightarrow> w64 \<times> w64 \<Rightarrow> hash512" where
  "sha512_round (a, b, c, d, e, f, g, h) (k, w) =
     (let T1 = h + bsig1_64 e + ch64 e f g + k + w;
          T2 = bsig0_64 a + maj64 a b c
      in (T1 + T2, a, b, c, d + T1, e, f, g))"

fun add512 :: "hash512 \<Rightarrow> hash512 \<Rightarrow> hash512" where
  "add512 (h0, h1, h2, h3, h4, h5, h6, h7) (a, b, c, d, e, f, g, h) =
     (h0 + a, h1 + b, h2 + c, h3 + d, h4 + e, h5 + f, h6 + g, h7 + h)"

definition sha512_compress :: "hash512 \<Rightarrow> byte list \<Rightarrow> hash512" where
  "sha512_compress H block = add512 H (foldl sha512_round H (zip K512 (sha512_schedule block)))"

fun digest512 :: "hash512 \<Rightarrow> byte list" where
  "digest512 (h0, h1, h2, h3, h4, h5, h6, h7) =
     concat (map (be_bytes 8) [h0, h1, h2, h3, h4, h5, h6, h7])"

definition sha512 :: "byte list \<Rightarrow> byte list" where
  "sha512 m = digest512 (foldl sha512_compress H512_init (chunks 128 (sha512_pad m)))"

definition hmac_sha512 :: "byte list \<Rightarrow> byte list \<Rightarrow> byte list" where
  "hmac_sha512 key msg =
     (let k0 = (if length key > 128 then sha512 key else key);
          k = k0 @ replicate (128 - length k0) 0
      in sha512 (map (\<lambda>b. b XOR 0x5c) k @ sha512 (map (\<lambda>b. b XOR 0x36) k @ msg)))"

fun pbkdf2_rounds :: "nat \<Rightarrow> byte list \<Rightarrow> byte list \<Rightarrow> byte list \<Rightarrow> byte list" where
  "pbkdf2_rounds 0 P U T = T"
| "pbkdf2_rounds (Suc n) P U T =
     (let U' = hmac_sha512 P U in pbkdf2_rounds n P U' (map2 (XOR) T U'))"

definition pbkdf2_block :: "byte list \<Rightarrow> byte list \<Rightarrow> nat \<Rightarrow> nat \<Rightarrow> byte list" where
  "pbkdf2_block P S c i = (let U1 = hmac_sha512 P (S @ be_bytes 4 (of_nat i :: w32)) in pbkdf2_rounds (c - 1) P U1 U1)"

definition pbkdf2_sha512 :: "byte list \<Rightarrow> byte list \<Rightarrow> nat \<Rightarrow> nat \<Rightarrow> byte list" where
  "pbkdf2_sha512 P S c dkLen =
     take dkLen (concat (map (pbkdf2_block P S c) [1..<Suc ((dkLen + 63) div 64)]))"

section \<open>security.js: salted API key hashes\<close>

record hashed_key =
  hash :: jsstring
  salt :: jsstring

text \<open>
  \<open>hashApiKey(apiKey, salt = null)\<close>: a missing or empty salt is replaced by the hex
  rendering of \<open>crypto.randomBytes(16)\<close>; the bytes drawn are the parameter \<open>rnd\<close>.
\<close>

definition hashApiKey :: "byte list \<Rightarrow> jsstring \<Rightarrow> jsstring option \<Rightarrow> hashed_key" where
  "hashApiKey rnd apiKey salt0 =
     (let salt1 = (case salt0 of
                     None \<Rightarrow> to_hex rnd
                   | Some s \<Rightarrow> if s = [] then to_hex rnd else s);
          hash1 = to_hex (pbkdf2_sha512 (utf8_encode apiKey) (utf8_encode salt1) 10000 64)
      in \<lparr>hash = hash1, salt = salt1\<rparr>)"

definition verifyApiKey :: "jsstring \<Rightarrow> jsval \<Rightarrow> jsstring \<Rightarrow> bool" where
  "verifyApiKey apiKey hash0 salt0 =
     (let computedHash = to_hex (pbkdf2_sha512 (utf8_encode apiKey) (utf8_encode salt0) 10000 64)
      in constantTimeCompare (JString computedHash) hash0)"

section \<open>databaseService.js: the shared SQLite database\<close>

text \<open>
  The tables the prepared statements read and write, with the columns they name.
  Rows are kept in lists, in the order the statements enumerate them. Token counts are
  integers; costs and balances are JavaScript numbers, taken as exact reals. A
  nullable column is an option. \<open>usage_daily\<close> is the target of
  \<open>ON CONFLICT(user_id, date)\<close>, which SQLite accepts only for a uniqueness
  constraint on these two columns, so the table is a map from that pair.
\<close>

record token_row =
  t_id :: int
  t_user_id :: int
  t_name :: jsstring
  t_created_at :: jsstring
  t_last_used :: "jsstring option"
  t_token :: jsstring

record user_row =
  u_id :: int
  u_email :: jsstring
  u_name :: jsstring

record credits_row =
  c_user_id :: int
  c_balance :: "real option"
  c_daily_allocation :: "real option"
  c_last_updated :: "jsstring option"

record usage_log_row =
  l_user_id :: int
  l_token_id :: int
  l_model :: jsstring
  l_input_tokens :: int
  l_output_tokens :: int
  l_cache_creation_tokens :: int
  l_cache_read_tokens :: int
  l_total_tokens :: int
  l_cost :: real
  l_request_id :: "jsstring option"
  l_endpoint :: jsstring
  l_status_code :: int

record usage_daily_row =
  total_input_tokens :: int
  total_output_tokens :: int
  total_cache_creation_tokens :: int
  total_cache_read_tokens :: int
  total_cost :: real
  request_count :: int
  updated_at :: "jsstring option"

record sqlite_db =
  tokens :: "token_row list"
  users :: "user_row list"
  credits_table :: "credits_row list"
  usage_logs :: "usage_log_row list"
  usage_daily :: "int \<times> jsstring \<rightharpoonup> usage_daily_row"

subsection \<open>Prepared statements\<close>





text \<open>\<open>statement.get(\<dots>)\<close> returns the first row of the result, or \<open>undefined\<close>.\<close>

definition stmt_get :: "'a list \<Rightarrow> 'a option" where
  "stmt_get rows = (case rows of [] \<Rightarrow> None | r # _ \<Rightarrow> Some r)"

definition updateLastUsed :: "jsstring \<Rightarrow> sqlite_db \<Rightarrow> int \<Rightarrow> sqlite_db" where
  "updateLastUsed now db i =
     db\<lparr>tokens := map (\<lambda>t. if t_id t = i then t\<lparr>t_last_used := Some now\<rparr> else t) (tokens db)\<rparr>"

definition getUserCredits :: "sqlite_db \<Rightarrow> int \<Rightarrow> credits_row list" where
  "getUserCredits db uid = filter (\<lambda>c. c_user_id c = uid) (credits_table db)"

definition updateCreditsBalance :: "sqlite_db \<Rightarrow> real \<Rightarrow> int \<Rightarrow> sqlite_db" where
  "updateCreditsBalance db newBalance uid =
     db\<lparr>credits_table :=
          map (\<lambda>c. if c_user_id c = uid then c\<lparr>c_balance := Some newBalance\<rparr> else c)
              (credits_table db)\<rparr>"

definition insertUsageLog :: "sqlite_db \<Rightarrow> usage_log_row \<Rightarrow> sqlite_db" where
  "insertUsageLog db r = db\<lparr>usage_logs := usage_logs db @ [r]\<rparr>"

text \<open>
  The upsert of the daily aggregate. The inserted row leaves \<open>updated_at\<close> to the
  column default (\<open>None\<close> here); a conflicting row has the excluded values added to
  its counters and \<open>updated_at\<close> set to the current time.
\<close>

definition updateDailyUsage ::
  "jsstring \<Rightarrow> sqlite_db \<Rightarrow> int \<Rightarrow> jsstring \<Rightarrow> int \<Rightarrow> int \<Rightarrow> int \<Rightarrow> int \<Rightarrow> real \<Rightarrow> int \<Rightarrow> sqlite_db" where
  "updateDailyUsage now db uid date inp outp cc cr cst cnt =
     db\<lparr>usage_daily :=
       (case usage_daily db (uid, date) of
          None \<Rightarrow>
            (usage_daily db)((uid, date) \<mapsto>
              \<lparr>total_input_tokens = inp, total_output_tokens = outp,
               total_cache_creation_tokens = cc, total_cache_read_tokens = cr,
               total_cost = cst, request_count = cnt, updated_at = None\<rparr>)
        | Some r \<Rightarrow>
            (usage_daily db)((uid, date) \<mapsto>
              \<lparr>total_input_tokens = total_input_tokens r + inp,
               total_output_tokens = total_output_tokens r + outp,
               total_cache_creation_tokens = total_cache_creation_tokens r + cc,
               total_cache_read_tokens = total_cache_read_tokens r + cr,
               total_cost = total_cost r + cst,
               request_count = request_count r + cnt,
               updated_at = Some now\<rparr>))\<rparr>"

subsection \<open>validateApiKey\<close>






text \<open>A nullable number in arithmetic: \<open>null\<close> counts as 0.\<close>

definition to_number :: "real option \<Rightarrow> real" where
  "to_number x = (case x of None \<Rightarrow> 0 | Some v \<Rightarrow> v)"



text \<open>
  The callback handed to \<open>setImmediate\<close> runs after the function has returned; it is
  a task put on the event loop's queue. \<open>validateApiKey\<close> returns its result together
  with the tasks it has scheduled. The service's \<open>db\<close> field is \<open>None\<close> until
  \<open>initialize\<close> has opened the database. The argument is a string, as documented;
  the database is a value, so a statement cannot fail for lack of a file or a lock,
  and the \<open>catch\<close> that turns such a failure into \<open>null\<close> has no branch here.
\<close>

datatype task = UpdateLastUsedTask int

definition hashedToken :: "jsstring \<Rightarrow> jsstring" where
  "hashedToken apiKey = to_hex (sha256 (utf8_encode apiKey))"


text \<open>
  Running the scheduled task: the update either succeeds or throws; the callback
  catches and logs the exception, and a failed statement changes nothing.
\<close>

fun run_task :: "bool \<Rightarrow> jsstring \<Rightarrow> sqlite_db \<Rightarrow> task \<Rightarrow> sqlite_db" where
  "run_task throws now db (UpdateLastUsedTask i) =
     (if throws then db else updateLastUsed now db i)"


subsection \<open>recordUsage\<close>

record usage_data =
  userId :: int
  tokenId :: int
  model :: jsstring
  inputTokens :: "int option"
  outputTokens :: "int option"
  cacheCreationTokens :: "int option"
  cacheReadTokens :: "int option"
  cost :: "real option"
  requestId :: "jsstring option"
  endpoint :: "jsstring option"
  statusCode :: "int option"

text \<open>A destructuring default: used when the property is \<open>undefined\<close>.\<close>

definition default_to :: "'a \<Rightarrow> 'a option \<Rightarrow> 'a" where
  "default_to d x = (case x of None \<Rightarrow> d | Some v \<Rightarrow> v)"

text \<open>
  The clock (\<open>new Date()\<close> and SQLite's \<open>datetime('now')\<close>) and the outcome of the
  transaction are given by the environment. A transaction that throws is rolled back
  whole, and \<open>recordUsage\<close> catches and logs the exception.
\<close>

record usage_env =
  today :: jsstring
  now_sql :: jsstring
  tx_throws :: bool

definition usage_transaction :: "usage_env \<Rightarrow> sqlite_db \<Rightarrow> usage_data \<Rightarrow> sqlite_db" where
  "usage_transaction env db usageData =
     (let inputTokens1 = default_to 0 (inputTokens usageData);
          outputTokens1 = default_to 0 (outputTokens usageData);
          cacheCreationTokens1 = default_to 0 (cacheCreationTokens usageData);
          cacheReadTokens1 = default_to 0 (cacheReadTokens usageData);
          cost1 = default_to 0 (cost usageData);
          endpoint1 = default_to (ascii ''/v1/messages'') (endpoint usageData);
          statusCode1 = default_to 200 (statusCode usageData);
          totalTokens = inputTokens1 + outputTokens1 + cacheCreationTokens1 + cacheReadTokens1;
          db1 = insertUsageLog db
                  \<lparr>l_user_id = userId usageData, l_token_id = tokenId usageData,
                   l_model = model usageData,
                   l_input_tokens = inputTokens1, l_output_tokens = outputTokens1,
                   l_cache_creation_tokens = cacheCreationTokens1,
                   l_cache_read_tokens = cacheReadTokens1,
                   l_total_tokens = totalTokens, l_cost = cost1,
                   l_request_id = requestId usageData,
                   l_endpoint = endpoint1, l_status_code = statusCode1\<rparr>;
          db2 = updateDailyUsage (now_sql env) db1 (userId usageData) (today env)
                  inputTokens1 outputTokens1 cacheCreationTokens1 cacheReadTokens1 cost1 1
      in case stmt_get (getUserCredits db2 (userId usageData)) of
           None \<Rightarrow> db2
         | Some credits1 \<Rightarrow>
             (let newBalance = max 0 (to_number (c_balance credits1) - cost1)
              in updateCreditsBalance db2 newBalance (userId usageData)))"

definition recordUsage :: "usage_env \<Rightarrow> sqlite_db option \<Rightarrow> usage_data \<Rightarrow> sqlite_db option" where
  "recordUsage env this_db usageData =
     (case this_db of
        None \<Rightarrow> None
      | Some db \<Rightarrow> if tx_throws env then Some db else Some (usage_transaction env db usageData))"

section \<open>Health routes and monitoring service\<close>

record service_status =
  healthy :: jsval

record services_status =
  redis :: "service_status option"
  database :: "service_status option"

text \<open>
  \<open>services\<close> is \<open>None\<close> when \<open>health.services\<close> is \<open>undefined\<close>, in which case reading
  a property of it throws and the handler's \<open>catch\<close> answers.
\<close>

record health_status =
  services :: "services_status option"

datatype readiness_body =
    ReadyBody (ready: bool) (timestamp: jsstring) (redis_field: jsval) (database_field: jsval)
  | ErrorBody (ready: bool) (error_message: jsstring)

record response =
  status :: nat
  body :: readiness_body

text \<open>\<open>s?.healthy\<close>: \<open>undefined\<close> when the service entry is missing.\<close>

definition opt_healthy :: "service_status option \<Rightarrow> jsval" where
  "opt_healthy s = (case s of None \<Rightarrow> JUndefined | Some r \<Rightarrow> healthy r)"

definition or_false :: "jsval \<Rightarrow> jsval" where
  "or_false v = (if truthy v then v else JBoolean False)"

definition readiness :: "jsstring \<Rightarrow> jsstring \<Rightarrow> health_status \<Rightarrow> response" where
  "readiness now type_error_message health =
     (case services health of
        None \<Rightarrow> \<lparr>status = 503, body = ErrorBody False type_error_message\<rparr>
      | Some svc \<Rightarrow>
          (let isReady = (opt_healthy (redis svc) = JBoolean True)
           in \<lparr>status = (if isReady then 200 else 503),
               body = ReadyBody isReady now (or_false (opt_healthy (redis svc)))
                                (or_false (opt_healthy (database svc)))\<rparr>))"

text \<open>
  The monitoring service starts with Redis reported unhealthy; \<open>checkRedis\<close> replaces
  the entry with the outcome of a ping.
\<close>

definition initial_healthStatus :: health_status where
  "initial_healthStatus =
     \<lparr>services = Some \<lparr>redis = Some \<lparr>healthy = JBoolean False\<rparr>,
                       database = Some \<lparr>healthy = JBoolean False\<rparr>\<rparr>\<rparr>"

definition checkRedis :: "bool \<Rightarrow> health_status \<Rightarrow> health_status" where
  "checkRedis ping_ok health =
     (case services health of
        None \<Rightarrow> health
      | Some svc \<Rightarrow> health\<lparr>services := Some (svc\<lparr>redis := Some \<lparr>healthy = JBoolean ping_ok\<rparr>\<rparr>)\<rparr>)"

section \<open>Predicates and sample data used in the statements\<close>

definition is_hex_digit :: "16 word \<Rightarrow> bool" where
  "is_hex_digit c = (in_range CHR ''0'' CHR ''9'' c \<or> in_range CHR ''a'' CHR ''f'' c)"

text \<open>Redis is reported healthy: the entry exists and its flag is the boolean \<open>true\<close>.\<close>

definition redis_reported_healthy :: "health_status \<Rightarrow> bool" where
  "redis_reported_healthy h =
     (case services h of
        None \<Rightarrow> False
      | Some svc \<Rightarrow> (case redis svc of None \<Rightarrow> False | Some s \<Rightarrow> healthy s = JBoolean True))"


text \<open>A usage log row whose total is the sum of its four token counts.\<close>

definition log_consistent :: "usage_log_row \<Rightarrow> bool" where
  "log_consistent r =
     (l_total_tokens r =
        l_input_tokens r + l_output_tokens r + l_cache_creation_tokens r + l_cache_read_tokens r)"

text \<open>No stored credit balance is negative.\<close>

definition balances_nonneg :: "sqlite_db \<Rightarrow> bool" where
  "balances_nonneg db =
     list_all (\<lambda>c. case c_balance c of None \<Rightarrow> True | Some b \<Rightarrow> 0 \<le> b) (credits_table db)"




text \<open>
  Sample rows: one user with one API key and 500 credits. The SHA-256 digest of the
  sample key is \<open>84e3dd2229ac9424e19c9d850d2059478d3a544c3bf59cf2187505403ac0aab5\<close>.
\<close>

definition sample_key :: jsstring where
  "sample_key = ascii ''sk_test_secure_key_123456''"









section \<open>Properties of the constant-time comparison\<close>

lemma xor_eq_0_byte: "((x::byte) XOR y = 0) = (x = y)"
  by (metis xor.right_neutral xor_self_eq xor.left_commute)

lemma memcmp_fold:
  "length a = length b \<Longrightarrow>
   (fold (\<lambda>(x, y) acc. acc OR (x XOR y)) (zip a b) (acc::byte) = 0) = (acc = 0 \<and> a = b)"
proof (induction a b arbitrary: acc rule: list_induct2)
  case Nil
  then show ?case by simp
next
  case (Cons x xs y ys)
  then show ?case by (simp add: or_eq_0_iff xor_eq_0_byte)
qed

lemma CRYPTO_memcmp_eq: "length a = length b \<Longrightarrow> (CRYPTO_memcmp a b = 0) = (a = b)"
  unfolding CRYPTO_memcmp_def by (simp add: memcmp_fold)

lemma typeof_string: "(typeof v = ''string'') = (\<exists>s. v = JString s)"
  by (cases v) simp_all

text \<open>After the length test the library call cannot throw: the \<open>catch\<close> is never entered.\<close>

lemma timingSafeEqual_same_length:
  "length a = length b \<Longrightarrow> timingSafeEqual a b = Inr (a = b)"
  by (simp add: timingSafeEqual_def CRYPTO_memcmp_eq)

lemma constantTimeCompare_strings:
  "constantTimeCompare (JString s) (JString t) = (Buffer_from s = Buffer_from t)"
proof (cases "byteLength s = byteLength t")
  case True
  then have "length (Buffer_from s) = length (Buffer_from t)"
    by (simp add: byteLength_def Buffer_from_def)
  then show ?thesis using True
    by (simp add: constantTimeCompare_def timingSafeEqual_same_length)
next
  case False
  then have "Buffer_from s \<noteq> Buffer_from t"
    by (auto simp: byteLength_def Buffer_from_def)
  then show ?thesis using False
    by (simp add: constantTimeCompare_def)
qed

lemma constantTimeCompare_not_string:
  "typeof a \<noteq> ''string'' \<or> typeof b \<noteq> ''string'' \<Longrightarrow> constantTimeCompare a b = False"
  by (simp add: constantTimeCompare_def)

lemma constantTimeCompare_iff:
  "constantTimeCompare a b =
     (\<exists>s t. a = JString s \<and> b = JString t \<and> byteLength s = byteLength t \<and>
            Buffer_from s = Buffer_from t)"
proof (cases "typeof a = ''string'' \<and> typeof b = ''string''")
  case True
  then obtain s t where st: "a = JString s" "b = JString t"
    by (auto simp: typeof_string)
  show ?thesis unfolding st constantTimeCompare_strings
    by (auto simp: byteLength_def Buffer_from_def)
next
  case False
  then have "constantTimeCompare a b = False"
    by (intro constantTimeCompare_not_string) blast
  moreover have "\<not> (\<exists>s t. a = JString s \<and> b = JString t \<and> byteLength s = byteLength t \<and>
      Buffer_from s = Buffer_from t)"
    using False by auto
  ultimately show ?thesis by simp
qed

text \<open>
  C9. For all JavaScript values \<open>a\<close> and \<open>b\<close>, \<open>constantTimeCompare a b\<close> returns a
  boolean, and it is true exactly when both are strings whose UTF-8 encodings have the
  same length and the same bytes. It is false when one argument is not a string, and
  false when the byte lengths differ.
\<close>

theorem constantTimeCompare_correct:
  "(constantTimeCompare a b =
      (\<exists>s t. a = JString s \<and> b = JString t \<and> byteLength s = byteLength t \<and>
             Buffer_from s = Buffer_from t)) \<and>
   (typeof a \<noteq> ''string'' \<or> typeof b \<noteq> ''string'' \<longrightarrow> constantTimeCompare a b = False) \<and>
   (\<forall>s t. a = JString s \<and> b = JString t \<and> byteLength s \<noteq> byteLength t \<longrightarrow>
          constantTimeCompare a b = False)"
proof (intro conjI allI impI)
  show "constantTimeCompare a b =
      (\<exists>s t. a = JString s \<and> b = JString t \<and> byteLength s = byteLength t \<and>
             Buffer_from s = Buffer_from t)"
    by (rule constantTimeCompare_iff)
next
  assume "typeof a \<noteq> ''string'' \<or> typeof b \<noteq> ''string''"
  then show "constantTimeCompare a b = False"
    by (rule constantTimeCompare_not_string)
next
  fix s t
  assume "a = JString s \<and> b = JString t \<and> byteLength s \<noteq> byteLength t"
  then show "constantTimeCompare a b = False"
    by (auto simp: constantTimeCompare_iff)
qed

lemma Buffer_from_str1:
  "Buffer_from (ascii ''sk_test123456789'') =
     [115, 107, 95, 116, 101, 115, 116, 49, 50, 51, 52, 53, 54, 55, 56, 57]"
  by (simp add: Buffer_from_def ascii_def utf8_1_def)

lemma Buffer_from_str3:
  "Buffer_from (ascii ''sk_test123456788'') =
     [115, 107, 95, 116, 101, 115, 116, 49, 50, 51, 52, 53, 54, 55, 56, 56]"
  by (simp add: Buffer_from_def ascii_def utf8_1_def)

theorem constantTimeCompare_correct_witness:
  "constantTimeCompare (JString (ascii ''sk_test123456789'')) (JString (ascii ''sk_test123456789''))
   \<and> \<not> constantTimeCompare (JString (ascii ''sk_test123456789'')) (JString (ascii ''sk_test123456788''))
   \<and> \<not> constantTimeCompare JNull (JString (ascii ''sk_test123456789''))
   \<and> \<not> constantTimeCompare (JString (ascii ''sk_'')) (JString (ascii ''sk_test123456789''))"
proof -
  let ?k = "ascii ''sk_test123456789''"
  have 1: "constantTimeCompare (JString ?k) (JString ?k)"
    using constantTimeCompare_correct [of "JString ?k" "JString ?k"] by simp
  have 2: "\<not> constantTimeCompare (JString ?k) (JString (ascii ''sk_test123456788''))"
    using constantTimeCompare_correct [of "JString ?k" "JString (ascii ''sk_test123456788'')"]
    by (simp add: Buffer_from_str1 Buffer_from_str3)
  have 3: "\<not> constantTimeCompare JNull (JString ?k)"
    using constantTimeCompare_correct [of JNull "JString ?k"] by simp
  have "byteLength (ascii ''sk_'') \<noteq> byteLength ?k"
    by (simp add: byteLength_def ascii_def utf8_1_def)
  then have 4: "\<not> constantTimeCompare (JString (ascii ''sk_'')) (JString ?k)"
    using constantTimeCompare_correct [of "JString (ascii ''sk_'')" "JString ?k"] by simp
  from 1 2 3 4 show ?thesis by simp
qed

section \<open>Properties of the API key format guard\<close>

lemma iter_cls_empty:
  "([] \<in> set (iter (run (Cls rs)) lo hi s)) =
   (lo \<le> length s \<and> length s \<le> hi \<and> list_all (in_class rs) s)"
proof (induction hi arbitrary: lo s)
  case 0
  then show ?case by (cases s) auto
next
  case (Suc hi)
  show ?case
  proof (cases s)
    case Nil
    then show ?thesis by simp
  next
    case (Cons c cs)
    then show ?thesis using Suc.IH [of "lo - 1" cs] by auto
  qed
qed

lemma spec_class:
  "in_class [(CHR ''A'', CHR ''Z''), (CHR ''a'', CHR ''z''),
             (CHR ''0'', CHR ''9''), (CHR ''_'', CHR ''_'')] = is_key_char"
  by (auto simp: in_class_def is_key_char_def in_range_def fun_eq_iff)

lemma run_prefixes:
  "set (run (Alt (Lit (ascii ''sk_'')) (Alt (Lit (ascii ''cr_'')) (Lit (ascii ''pk_'')))) s) =
   (if list_ex (\<lambda>prefix. startsWith s prefix) validPrefixes then {drop 3 s} else {})"
  by (auto simp: validPrefixes_def ascii_def numeral_3_eq_3)

text \<open>
  The specification's expression in words: one of the three prefixes, then 17 to 253
  characters that are letters, digits or underscores.
\<close>

lemma rx_match_spec:
  "rx_match spec_key_regex s =
   (list_ex (\<lambda>prefix. startsWith s prefix) validPrefixes \<and>
    17 \<le> length (drop 3 s) \<and> length (drop 3 s) \<le> 253 \<and> list_all is_key_char (drop 3 s))"
proof -
  let ?A = "Alt (Lit (ascii ''sk_'')) (Alt (Lit (ascii ''cr_'')) (Lit (ascii ''pk_'')))"
  let ?C = "Cls [(CHR ''A'', CHR ''Z''), (CHR ''a'', CHR ''z''),
                 (CHR ''0'', CHR ''9''), (CHR ''_'', CHR ''_'')]"
  have "rx_match spec_key_regex s = (\<exists>t \<in> set (run ?A s). [] \<in> set (iter (run ?C) 17 253 t))"
    unfolding rx_match_def spec_key_regex_def run.simps(4) run.simps(5) set_concat set_map
    by blast
  also have "\<dots> = (list_ex (\<lambda>prefix. startsWith s prefix) validPrefixes \<and>
      [] \<in> set (iter (run ?C) 17 253 (drop 3 s)))"
    unfolding run_prefixes by simp
  finally show ?thesis unfolding iter_cls_empty spec_class .
qed

lemma isValidApiKeyFormat_not_string:
  "typeof v \<noteq> ''string'' \<Longrightarrow> isValidApiKeyFormat v = False"
  by (simp add: isValidApiKeyFormat_def)

lemma startsWith_split: "startsWith s p = (\<exists>r. s = p @ r)"
proof
  assume "startsWith s p"
  then have "s = p @ drop (length p) s"
    unfolding startsWith_def by (metis append_take_drop_id)
  then show "\<exists>r. s = p @ r" ..
next
  assume "\<exists>r. s = p @ r"
  then show "startsWith s p" by (auto simp: startsWith_def)
qed

lemma validPrefixes_length: "p \<in> set validPrefixes \<Longrightarrow> length p = 3"
  by (auto simp: validPrefixes_def ascii_def)

lemma rx_match_spec_words:
  "rx_match spec_key_regex s =
     (\<exists>p r. s = p @ r \<and> p \<in> set validPrefixes \<and> 17 \<le> length r \<and> length r \<le> 253 \<and>
            list_all is_key_char r \<and> 20 \<le> length s \<and> length s \<le> 256)"
proof
  assume "rx_match spec_key_regex s"
  then obtain p where p: "p \<in> set validPrefixes" "startsWith s p"
    and r: "17 \<le> length (drop 3 s)" "length (drop 3 s) \<le> 253" "list_all is_key_char (drop 3 s)"
    unfolding rx_match_spec list_ex_iff by blast
  from p(2) obtain r0 where "s = p @ r0" unfolding startsWith_split ..
  then have s: "s = p @ drop 3 s"
    using validPrefixes_length [OF p(1)] by simp
  from r have "20 \<le> length s" "length s \<le> 256" by simp_all
  with p(1) r s show "\<exists>p r. s = p @ r \<and> p \<in> set validPrefixes \<and> 17 \<le> length r \<and> length r \<le> 253 \<and>
            list_all is_key_char r \<and> 20 \<le> length s \<and> length s \<le> 256"
    by blast
next
  assume "\<exists>p r. s = p @ r \<and> p \<in> set validPrefixes \<and> 17 \<le> length r \<and> length r \<le> 253 \<and>
            list_all is_key_char r \<and> 20 \<le> length s \<and> length s \<le> 256"
  then obtain p r where s: "s = p @ r" and p: "p \<in> set validPrefixes"
    and r: "17 \<le> length r" "length r \<le> 253" "list_all is_key_char r"
    by blast
  have d: "drop 3 s = r" using validPrefixes_length [OF p] by (simp add: s)
  have "startsWith s p" unfolding startsWith_split using s by blast
  with p have "list_ex (\<lambda>prefix. startsWith s prefix) validPrefixes"
    unfolding list_ex_iff by blast
  with r d show "rx_match spec_key_regex s"
    unfolding rx_match_spec by simp
qed

lemma isValidApiKeyFormat_rx:
  "isValidApiKeyFormat (JString s) = rx_match spec_key_regex s"
  unfolding rx_match_spec
  by (auto simp: isValidApiKeyFormat_def test_key_chars_def substring_from_def Let_def)

text \<open>
  C3. For every string \<open>s\<close>, the format guard accepts \<open>s\<close> exactly when \<open>s\<close> matches
  \<open>^(sk_|cr_|pk_)[A-Za-z0-9_]{17,253}$\<close>; in other words, when \<open>s\<close> is one of the
  prefixes \<open>sk_\<close>, \<open>cr_\<close>, \<open>pk_\<close> followed by 17 to 253 letters, digits or
  underscores, 20 to 256 characters in all.
\<close>

theorem isValidApiKeyFormat_regex:
  "isValidApiKeyFormat (JString s) = rx_match spec_key_regex s \<and>
   isValidApiKeyFormat (JString s) =
     (\<exists>p r. s = p @ r \<and> p \<in> set validPrefixes \<and> 17 \<le> length r \<and> length r \<le> 253 \<and>
            list_all is_key_char r \<and> 20 \<le> length s \<and> length s \<le> 256)"
proof
  show "isValidApiKeyFormat (JString s) = rx_match spec_key_regex s"
    by (rule isValidApiKeyFormat_rx)
  then show "isValidApiKeyFormat (JString s) =
     (\<exists>p r. s = p @ r \<and> p \<in> set validPrefixes \<and> 17 \<le> length r \<and> length r \<le> 253 \<and>
            list_all is_key_char r \<and> 20 \<le> length s \<and> length s \<le> 256)"
    by (simp only: rx_match_spec_words)
qed

theorem isValidApiKeyFormat_regex_witness:
  "isValidApiKeyFormat (JString (ascii ''cr_test_key_with_underscores_123'')) \<and>
   rx_match spec_key_regex (ascii ''cr_test_key_with_underscores_123'') \<and>
   \<not> isValidApiKeyFormat (JString (ascii ''sk_invalid-chars!@#_0123456789'')) \<and>
   \<not> rx_match spec_key_regex (ascii ''sk_invalid-chars!@#_0123456789'') \<and>
   \<not> isValidApiKeyFormat (JString (ascii ''sk_short'')) \<and>
   \<not> rx_match spec_key_regex (ascii ''sk_short'')"
  using isValidApiKeyFormat_regex [THEN conjunct1, of "ascii ''cr_test_key_with_underscores_123''"]
    isValidApiKeyFormat_regex [THEN conjunct1, of "ascii ''sk_invalid-chars!@#_0123456789''"]
    isValidApiKeyFormat_regex [THEN conjunct1, of "ascii ''sk_short''"]
  by (simp add: isValidApiKeyFormat_def ascii_def validPrefixes_def startsWith_def
      test_key_chars_def is_key_char_def substring_from_def in_range_def)

section \<open>Properties of the digests\<close>

lemma length_be_bytes: "length (be_bytes n w) = n"
  by (simp add: be_bytes_def)

lemma length_digest256: "length (digest256 H) = 32"
  by (cases H rule: digest256.cases) (simp add: length_be_bytes)

lemma length_digest512: "length (digest512 H) = 64"
  by (cases H rule: digest512.cases) (simp add: length_be_bytes)

lemma length_sha256: "length (sha256 m) = 32"
  by (simp add: sha256_def length_digest256)

lemma length_sha512: "length (sha512 m) = 64"
  by (simp add: sha512_def length_digest512)

lemma length_to_hex: "length (to_hex bs) = 2 * length bs"
  by (induction bs) (simp_all add: to_hex_def)

lemma hex_chars: "\<forall>c \<in> set ''0123456789abcdef''. is_hex_digit (of_char c)"
  by (simp add: is_hex_digit_def in_range_def)

lemma hex_digit_table: "n < 16 \<Longrightarrow> is_hex_digit (of_char (''0123456789abcdef'' ! n))"
proof -
  assume "n < 16"
  then have "''0123456789abcdef'' ! n \<in> set ''0123456789abcdef''"
    by (intro nth_mem) simp
  then show ?thesis using hex_chars by blast
qed

lemma unat_high_nibble: "unat (drop_bit 4 (b::byte)) < 16"
proof -
  have "unat b < 256" using unsigned_less [of b] by simp
  then show ?thesis by (simp add: drop_bit_eq_div unat_div div_less_iff_less_mult)
qed

lemma unat_low_nibble: "unat ((b::byte) AND 0x0F) < 16"
proof -
  have "unat (b AND 15) \<le> unat (15 :: byte)"
    by (rule word_and_le1 [THEN word_le_nat_alt [THEN iffD1]])
  then show ?thesis by simp
qed

lemma is_hex_digit_hex_digit: "unat d < 16 \<Longrightarrow> is_hex_digit (hex_digit d)"
  using hex_digit_table by (simp add: hex_digit_def)

lemma to_hex_digits: "list_all is_hex_digit (to_hex bs)"
  by (induction bs) (simp_all add: to_hex_def is_hex_digit_hex_digit unat_high_nibble unat_low_nibble)

lemma length_hmac_sha512: "length (hmac_sha512 k m) = 64"
  by (simp add: hmac_sha512_def Let_def length_sha512)

lemma length_pbkdf2_rounds:
  "length T = 64 \<Longrightarrow> length (pbkdf2_rounds n P U T) = 64"
  by (induction n arbitrary: U T) (simp_all add: Let_def length_hmac_sha512)

lemma length_pbkdf2_block: "length (pbkdf2_block P S c i) = 64"
  by (simp add: pbkdf2_block_def Let_def length_pbkdf2_rounds length_hmac_sha512)

lemma length_pbkdf2_64: "length (pbkdf2_sha512 P S c 64) = 64"
proof -
  have "[1..<Suc ((64 + 63) div 64)] = [1::nat]"
    by (simp add: upt_rec)
  then show ?thesis
    by (simp add: pbkdf2_sha512_def length_pbkdf2_block)
qed

lemma length_hashedToken: "length (hashedToken p) = 64"
  by (simp add: hashedToken_def length_to_hex length_sha256)

lemma length_hashApiKey: "length (hash (hashApiKey rnd k s)) = 128"
  by (simp add: hashApiKey_def Let_def length_to_hex length_pbkdf2_64)

lemma hashApiKey_salt:
  "salt (hashApiKey rnd k s) =
     (case s of None \<Rightarrow> to_hex rnd | Some x \<Rightarrow> if x = [] then to_hex rnd else x)"
  by (simp add: hashApiKey_def Let_def)

lemma hashApiKey_hash:
  "hash (hashApiKey rnd k s) =
     to_hex (pbkdf2_sha512 (utf8_encode k) (utf8_encode (salt (hashApiKey rnd k s))) 10000 64)"
  by (simp add: hashApiKey_def Let_def)

lemma verifyApiKey_iff:
  "verifyApiKey k h s =
     (\<exists>x. h = JString x \<and>
          Buffer_from x = Buffer_from (to_hex (pbkdf2_sha512 (utf8_encode k) (utf8_encode s) 10000 64)))"
  by (auto simp: verifyApiKey_def Let_def constantTimeCompare_iff byteLength_def Buffer_from_def)

lemma verifyApiKey_hashApiKey:
  "verifyApiKey k (JString (hash (hashApiKey rnd k s))) (salt (hashApiKey rnd k s))"
  unfolding verifyApiKey_iff by (simp add: hashApiKey_hash)

section \<open>Properties of usage recording\<close>

lemma usage_transaction_tokens [simp]: "tokens (usage_transaction env db u) = tokens db"
  by (simp add: usage_transaction_def Let_def insertUsageLog_def updateDailyUsage_def
      updateCreditsBalance_def split: option.split)

lemma usage_transaction_users [simp]: "users (usage_transaction env db u) = users db"
  by (simp add: usage_transaction_def Let_def insertUsageLog_def updateDailyUsage_def
      updateCreditsBalance_def split: option.split)

lemma usage_transaction_logs:
  "usage_logs (usage_transaction env db u) =
     usage_logs db @
       [\<lparr>l_user_id = userId u, l_token_id = tokenId u, l_model = model u,
         l_input_tokens = default_to 0 (inputTokens u),
         l_output_tokens = default_to 0 (outputTokens u),
         l_cache_creation_tokens = default_to 0 (cacheCreationTokens u),
         l_cache_read_tokens = default_to 0 (cacheReadTokens u),
         l_total_tokens = default_to 0 (inputTokens u) + default_to 0 (outputTokens u) +
                          default_to 0 (cacheCreationTokens u) + default_to 0 (cacheReadTokens u),
         l_cost = default_to 0 (cost u), l_request_id = requestId u,
         l_endpoint = default_to (ascii ''/v1/messages'') (endpoint u),
         l_status_code = default_to 200 (statusCode u)\<rparr>]"
  by (simp add: usage_transaction_def Let_def insertUsageLog_def updateDailyUsage_def
      updateCreditsBalance_def split: option.split)


lemma usage_transaction_credits:
  "credits_table (usage_transaction env db u) =
     (case stmt_get (getUserCredits db (userId u)) of
        None \<Rightarrow> credits_table db
      | Some c1 \<Rightarrow>
          map (\<lambda>c. if c_user_id c = userId u
                   then c\<lparr>c_balance := Some (max 0 (to_number (c_balance c1) - default_to 0 (cost u)))\<rparr>
                   else c)
              (credits_table db))"
  by (simp add: usage_transaction_def Let_def insertUsageLog_def updateDailyUsage_def
      updateCreditsBalance_def getUserCredits_def split: option.split)

lemma recordUsage_Some:
  "recordUsage env (Some db) u = Some db' \<Longrightarrow>
   db' = (if tx_throws env then db else usage_transaction env db u)"
  by (simp add: recordUsage_def split: if_splits)


lemma recordUsage_logs_invariant:
  assumes "recordUsage env (Some db) u = Some db'"
    and "list_all log_consistent (usage_logs db)"
  shows "list_all log_consistent (usage_logs db')"
proof (cases "tx_throws env")
  case True
  with recordUsage_Some [OF assms(1)] assms(2) show ?thesis by simp
next
  case False
  with recordUsage_Some [OF assms(1)] assms(2) show ?thesis
    by (simp add: usage_transaction_logs log_consistent_def)
qed


lemma balances_nonneg_transaction:
  "balances_nonneg db \<Longrightarrow> balances_nonneg (usage_transaction env db u)"
  by (auto simp: balances_nonneg_def usage_transaction_credits list_all_iff split: option.splits)

lemma recordUsage_balances_nonneg:
  assumes "recordUsage env (Some db) u = Some db'" and "balances_nonneg db"
  shows "balances_nonneg db'"
  using recordUsage_Some [OF assms(1)] assms(2)
  by (simp add: balances_nonneg_transaction)




section \<open>Properties of API key validation\<close>




















section \<open>Properties of the daily cost limit\<close>









section \<open>No overdraw flag\<close>


section \<open>Properties of the daily aggregate\<close>











section \<open>Properties of the readiness probe\<close>

lemma readiness_status:
  "status (readiness now msg h) = (if redis_reported_healthy h then 200 else 503)"
  by (simp add: readiness_def redis_reported_healthy_def opt_healthy_def Let_def
      split: option.split)

lemma readiness_ready:
  "ready (body (readiness now msg h)) = redis_reported_healthy h"
  by (simp add: readiness_def redis_reported_healthy_def opt_healthy_def Let_def
      split: option.split)

lemma checkRedis_reported:
  "services h \<noteq> None \<Longrightarrow> redis_reported_healthy (checkRedis ok h) = ok"
  by (auto simp: checkRedis_def redis_reported_healthy_def)

text \<open>
  C6. The readiness endpoint answers 200 with \<open>ready: true\<close> exactly when Redis is
  reported healthy in the current health status, and 503 with \<open>ready: false\<close>
  otherwise, whatever the health status is.
\<close>

theorem readiness_iff:
  "((status (readiness now msg h) = 200 \<and> ready (body (readiness now msg h))) =
      redis_reported_healthy h) \<and>
   ((status (readiness now msg h) = 503 \<and> \<not> ready (body (readiness now msg h))) =
      (\<not> redis_reported_healthy h))"
  by (simp add: readiness_status readiness_ready)



theorem readiness_iff_witness:
  "status (readiness (ascii ''2025-06-01T12:00:00.000Z'') (ascii ''TypeError'')
             (checkRedis True initial_healthStatus)) = 200 \<and>
   ready (body (readiness (ascii ''2025-06-01T12:00:00.000Z'') (ascii ''TypeError'')
             (checkRedis True initial_healthStatus))) \<and>
   status (readiness (ascii ''2025-06-01T12:00:00.000Z'') (ascii ''TypeError'')
             initial_healthStatus) = 503 \<and>
   \<not> ready (body (readiness (ascii ''2025-06-01T12:00:00.000Z'') (ascii ''TypeError'')
             initial_healthStatus)) \<and>
   status (readiness (ascii ''2025-06-01T12:00:00.000Z'') (ascii ''TypeError'')
             \<lparr>services = None\<rparr>) = 503"
proof -
  let ?now = "ascii ''2025-06-01T12:00:00.000Z''" and ?msg = "ascii ''TypeError''"
  have a: "redis_reported_healthy (checkRedis True initial_healthStatus)"
    by (simp add: checkRedis_def initial_healthStatus_def redis_reported_healthy_def)
  have b: "\<not> redis_reported_healthy initial_healthStatus"
    by (simp add: initial_healthStatus_def redis_reported_healthy_def)
  have c: "\<not> redis_reported_healthy \<lparr>services = None\<rparr>"
    by (simp add: redis_reported_healthy_def)
  from readiness_iff [of ?now ?msg "checkRedis True initial_healthStatus"] a
  have 1: "status (readiness ?now ?msg (checkRedis True initial_healthStatus)) = 200 \<and>
           ready (body (readiness ?now ?msg (checkRedis True initial_healthStatus)))"
    by blast
  from readiness_iff [of ?now ?msg initial_healthStatus] b
  have 2: "status (readiness ?now ?msg initial_healthStatus) = 503 \<and>
           \<not> ready (body (readiness ?now ?msg initial_healthStatus))"
    by blast
  from readiness_iff [of ?now ?msg "\<lparr>services = None\<rparr>"] c
  have 3: "status (readiness ?now ?msg \<lparr>services = None\<rparr>) = 503"
    by blast
  from 1 2 3 show ?thesis by blast
qed

section \<open>Properties of the deferred lastUsed update\<close>











lemma run_task_cases:
  "run_task throws now db task = db \<or> (\<exists>i. \<not> throws \<and> run_task throws now db task = updateLastUsed now db i)"
  by (cases task) auto














section \<open>Properties of the stored hashes\<close>

lemma ucast_twice: "(ucast (ucast (c::16 word) :: 32 word) :: byte) = ucast c"
  by (simp add: ucast_up_ucast is_up)

lemma unat_ucast_ascii: "(c::16 word) < 0x80 \<Longrightarrow> unat (ucast c :: byte) = unat c"
proof -
  assume "c < 0x80"
  then have "unat c < 128" by (simp add: word_less_nat_alt)
  then have "take_bit 8 (unat c) = unat c" by (intro take_bit_nat_eq_self) simp
  then show ?thesis by (simp add: unsigned_ucast_eq)
qed

lemma ucast_ascii_less: "(c::16 word) < 0x80 \<Longrightarrow> (ucast c :: byte) < 0x80"
  by (simp add: word_less_nat_alt [of "ucast c"] unat_ucast_ascii) (simp add: word_less_nat_alt)

lemma ucast_ascii_inj:
  assumes "(c::16 word) < 0x80" and "d < 0x80" and "(ucast c :: byte) = ucast d"
  shows "c = d"
proof -
  from assms(3) have "unat (ucast c :: byte) = unat (ucast d :: byte)" by simp
  then have "unat c = unat d"
    by (simp add: unat_ucast_ascii [OF assms(1)] unat_ucast_ascii [OF assms(2)])
  then show ?thesis by (simp only: word_unat_eq_iff)
qed

lemma utf8_ascii_Cons:
  "c < 0x80 \<Longrightarrow> utf8_encode (c # cs) = ucast c # utf8_encode cs"
  by (simp add: utf8_1_def ucast_twice)

lemma high_bit_or: "(0x80::byte) \<le> x \<Longrightarrow> 0x80 \<le> x OR y"
  using le_word_or2 [of x y] by simp

lemma utf8_non_ascii_Cons:
  assumes "\<not> c < 0x80"
  shows "\<exists>b bs. utf8_encode (c # cs) = b # bs \<and> 0x80 \<le> b"
proof -
  have a: "(0x80::byte) \<le> 0xC0 OR y" "(0x80::byte) \<le> 0xE0 OR y" "(0x80::byte) \<le> 0xF0 OR y" for y
    by (rule high_bit_or, simp)+
  show ?thesis using assms a
    by (cases cs)
       (auto simp: utf8_2_def utf8_3_def utf8_4_def replacement_char_def)
qed

lemma utf8_encode_ascii:
  "list_all (\<lambda>c. c < 0x80) s \<Longrightarrow> utf8_encode s = map ucast s"
  by (induction s) (simp_all add: utf8_ascii_Cons del: utf8_encode.simps(2))

text \<open>A string whose UTF-8 bytes are those of an ASCII string is that string.\<close>

lemma utf8_encode_ascii_inj:
  "list_all (\<lambda>c. c < 0x80) s \<Longrightarrow> utf8_encode x = utf8_encode s \<Longrightarrow> x = s"
proof (induction x arbitrary: s)
  case Nil
  then show ?case by (cases s) (simp_all add: utf8_ascii_Cons del: utf8_encode.simps(2))
next
  case (Cons c cs)
  show ?case
  proof (cases s)
    case Nil
    with Cons.prems(2) show ?thesis
      using utf8_non_ascii_Cons [of c cs] utf8_ascii_Cons [of c cs] by (cases "c < 0x80") auto
  next
    case s: (Cons d ds)
    with Cons.prems(1) have d: "d < 0x80" and ds: "list_all (\<lambda>c. c < 0x80) ds" by simp_all
    have e: "utf8_encode (c # cs) = ucast d # utf8_encode ds"
      using Cons.prems(2) by (simp add: s utf8_ascii_Cons [OF d] del: utf8_encode.simps(2))
    have c: "c < 0x80"
    proof (rule ccontr)
      assume "\<not> c < 0x80"
      from utf8_non_ascii_Cons [OF this, of cs] e have "(0x80::byte) \<le> ucast d" by auto
      with ucast_ascii_less [OF d] show False by simp
    qed
    from e have "(ucast c :: byte) = ucast d" and "utf8_encode cs = utf8_encode ds"
      by (simp_all add: utf8_ascii_Cons [OF c] del: utf8_encode.simps(2))
    with Cons.IH [OF ds] ucast_ascii_inj [OF c d] show ?thesis by (simp add: s)
  qed
qed

lemma is_hex_digit_ascii: "is_hex_digit c \<Longrightarrow> c < 0x80"
  by (auto simp: is_hex_digit_def in_range_def word_le_nat_alt word_less_nat_alt)

lemma to_hex_ascii: "list_all (\<lambda>c. c < 0x80) (to_hex bs)"
  using to_hex_digits [of bs] by (auto simp: list_all_iff is_hex_digit_ascii)

lemma byteLength_to_hex: "byteLength (to_hex bs) = 2 * length bs"
  by (simp add: byteLength_def utf8_encode_ascii to_hex_ascii length_to_hex)

lemma verifyApiKey_exact:
  "verifyApiKey k h s =
     (h = JString (to_hex (pbkdf2_sha512 (utf8_encode k) (utf8_encode s) 10000 64)))"
  unfolding verifyApiKey_iff Buffer_from_def
  using utf8_encode_ascii_inj [OF to_hex_ascii] by auto


text \<open>
  C2 (amended). The digest that database validation computes and looks up is the
  SHA-256 digest of the plaintext key, written as 64 lower-case hexadecimal
  characters. The hash that \<open>hashApiKey\<close> produces for storage, and that
  \<open>verifyApiKey\<close> recomputes and compares, is the PBKDF2-HMAC-SHA512 key (10000
  iterations, 64 bytes) of the plaintext and a salt, written as 128 hexadecimal
  characters.
\<close>

theorem api_key_hashes:
  "hashedToken p = to_hex (sha256 (utf8_encode p)) \<and>
   length (hashedToken p) = 64 \<and> list_all is_hex_digit (hashedToken p) \<and>
   hash (hashApiKey rnd k s) =
     to_hex (pbkdf2_sha512 (utf8_encode k) (utf8_encode (salt (hashApiKey rnd k s))) 10000 64) \<and>
   length (hash (hashApiKey rnd k s)) = 128 \<and>
   list_all is_hex_digit (hash (hashApiKey rnd k s)) \<and>
   verifyApiKey k h s' =
     (h = JString (to_hex (pbkdf2_sha512 (utf8_encode k) (utf8_encode s') 10000 64))) \<and>
   verifyApiKey k (JString (hash (hashApiKey rnd k s))) (salt (hashApiKey rnd k s))"
proof (intro conjI)
  show "hashedToken p = to_hex (sha256 (utf8_encode p))"
    by (simp add: hashedToken_def)
  show "length (hashedToken p) = 64"
    by (rule length_hashedToken)
  show "list_all is_hex_digit (hashedToken p)"
    by (simp add: hashedToken_def to_hex_digits)
  show "hash (hashApiKey rnd k s) =
     to_hex (pbkdf2_sha512 (utf8_encode k) (utf8_encode (salt (hashApiKey rnd k s))) 10000 64)"
    by (rule hashApiKey_hash)
  show "length (hash (hashApiKey rnd k s)) = 128"
    by (rule length_hashApiKey)
  show "list_all is_hex_digit (hash (hashApiKey rnd k s))"
    by (simp add: hashApiKey_hash to_hex_digits)
  show "verifyApiKey k h s' =
     (h = JString (to_hex (pbkdf2_sha512 (utf8_encode k) (utf8_encode s') 10000 64)))"
    by (rule verifyApiKey_exact)
  show "verifyApiKey k (JString (hash (hashApiKey rnd k s))) (salt (hashApiKey rnd k s))"
    by (rule verifyApiKey_hashApiKey)
qed

theorem api_key_hashes_witness:
  "length (hashedToken sample_key) = 64 \<and>
   length (hash (hashApiKey (replicate 16 0) sample_key None)) = 128 \<and>
   verifyApiKey sample_key (JString (hash (hashApiKey (replicate 16 0) sample_key None)))
     (salt (hashApiKey (replicate 16 0) sample_key None)) \<and>
   \<not> verifyApiKey sample_key (JString (hashedToken sample_key))
     (salt (hashApiKey (replicate 16 0) sample_key None))"
proof -
  note a = api_key_hashes [of sample_key "replicate 16 0" sample_key None
      "JString (hashedToken sample_key)" "salt (hashApiKey (replicate 16 0) sample_key None)"]
  from a have h: "hash (hashApiKey (replicate 16 0) sample_key None) =
      to_hex (pbkdf2_sha512 (utf8_encode sample_key)
          (utf8_encode (salt (hashApiKey (replicate 16 0) sample_key None))) 10000 64)"
    and l: "length (hash (hashApiKey (replicate 16 0) sample_key None)) = 128"
    and m: "length (hashedToken sample_key) = 64"
    and v: "verifyApiKey sample_key (JString (hash (hashApiKey (replicate 16 0) sample_key None)))
      (salt (hashApiKey (replicate 16 0) sample_key None))"
    and e: "verifyApiKey sample_key (JString (hashedToken sample_key))
      (salt (hashApiKey (replicate 16 0) sample_key None)) =
     (JString (hashedToken sample_key) =
      JString (to_hex (pbkdf2_sha512 (utf8_encode sample_key)
         (utf8_encode (salt (hashApiKey (replicate 16 0) sample_key None))) 10000 64)))"
    by blast+
  from l m have "hashedToken sample_key \<noteq> hash (hashApiKey (replicate 16 0) sample_key None)"
    by auto
  then have "\<not> verifyApiKey sample_key (JString (hashedToken sample_key))
      (salt (hashApiKey (replicate 16 0) sample_key None))"
    unfolding e h [symmetric] by simp
  with l m v show ?thesis by simp
qed

text \<open>
  The hash \<open>hashApiKey\<close> returns for a key, here with the all-zero random salt, has
  128 characters and is not the SHA-256 digest of the key.
\<close>

theorem hashApiKey_not_sha256_counterexample:
  "length (hash (hashApiKey (replicate 16 0) sample_key None)) \<noteq> 64 \<and>
   hash (hashApiKey (replicate 16 0) sample_key None) \<noteq> to_hex (sha256 (utf8_encode sample_key)) \<and>
   salt (hashApiKey (replicate 16 0) sample_key None) = ascii ''00000000000000000000000000000000''"
proof -
  have 1: "length (hash (hashApiKey (replicate 16 0) sample_key None)) = 128"
    by (rule length_hashApiKey)
  have 2: "length (to_hex (sha256 (utf8_encode sample_key))) = 64"
    by (simp add: length_to_hex length_sha256)
  have 3: "salt (hashApiKey (replicate 16 0) sample_key None) = ascii ''00000000000000000000000000000000''"
    by (simp add: hashApiKey_salt to_hex_def hex_digit_def ascii_def eval_nat_numeral)
  from 1 2 have "hash (hashApiKey (replicate 16 0) sample_key None) \<noteq> to_hex (sha256 (utf8_encode sample_key))"
    by auto
  with 1 3 show ?thesis by simp
qed

end
